theory Spec2Isabelle
  imports
    Main
    "HOL-Library.Word"
    "HOL-Library.Char_ord"
    "HOL-Library.List_Lexorder"
    "HOL-Library.Option_ord"
    "HOL-Library.Log_Nat"
begin

section \<open>The rdb protocol: shard projection and response merging\<close>

text \<open>
  A shallow embedding of \<^verbatim>\<open>src/rdb_protocol/protocol.cc\<close>: the region helpers, the
  visitors behind \<^verbatim>\<open>read_t::get_region\<close>, \<^verbatim>\<open>read_t::shard\<close>,
  \<^verbatim>\<open>read_t::unshard\<close> and \<^verbatim>\<open>read_t::multistore_unshard\<close>, the two write
  unshard functions and \<^verbatim>\<open>cpu_sharding_subspace\<close>.

  Conventions.
  \<^item> A \<^verbatim>\<open>store_key_t\<close> is a byte string. Its comparison operators order keys
    lexicographically by unsigned bytes, a proper prefix being smaller: the order of
    \<^typ>\<open>string\<close> with the two library orders imported above.
  \<^item> A \<^verbatim>\<open>boost::shared_ptr\<close> to a JSON value is an \<open>option\<close>: \<open>None\<close> is the
    null pointer that a default-constructed \<^verbatim>\<open>atom_t()\<close> holds.
  \<^item> A \<^verbatim>\<open>std::map\<close> is the list of its entries in iteration order.
  \<^item> \<^verbatim>\<open>boost::get<T>(&v)\<close> on a variant is an \<open>option\<close>: \<open>None\<close> is the null
    pointer it returns when the variant holds another alternative.
  \<^item> A failed \<^verbatim>\<open>rassert\<close> or \<^verbatim>\<open>guarantee\<close> and a dereferenced null pointer or
    end iterator end the call: the functions return \<open>failure + result\<close>.
    (\<^verbatim>\<open>rassert\<close> is checked in debug builds; the model is the debug build.)
  \<^item> What the file uses but does not define (the hash function, the size of the hash
    space, \<^verbatim>\<open>last_key_in_range\<close>, the query-language evaluator and its scopes)
    is a field of the record \<open>externals\<close>, passed to the functions that need it.
  \<^item> The request and response types are declared in \<^verbatim>\<open>protocol.hpp\<close>; they are
    written here with the fields and alternatives that \<^verbatim>\<open>protocol.cc\<close> reads and
    writes.
\<close>

subsection \<open>Keys, key ranges and regions\<close>

type_synonym store_key_t = string

type_synonym 'j atom_t = "'j option"

datatype failure = AssertionFailed | GuaranteeFailed | InvalidDereference | CastOutOfRange

text \<open>
  \<^verbatim>\<open>key_range_t\<close>: every key from \<open>left\<close> on, up to the right bound (exclusive)
  when there is one. Two ranges are equal when their left keys and right bounds are.
\<close>

datatype right_bound_t = Unbounded | Bounded store_key_t

record key_range_t =
  left :: store_key_t
  right :: right_bound_t

text \<open>
  The region type of the protocol, a hash region over key ranges: the hash interval
  from \<open>beg\<close> to \<open>end_hash\<close> (exclusive; the field \<^verbatim>\<open>end\<close> of the source) and
  the key range \<open>inner\<close>. Equality is equality of the three fields.
\<close>

record region_t =
  beg :: "64 word"
  end_hash :: "64 word"
  inner :: key_range_t

text \<open>
  What \<^verbatim>\<open>protocol.cc\<close> calls and does not define. \<open>eval\<close> is the query-language
  evaluator: a term and the scopes in, a JSON value or a thrown \<^verbatim>\<open>runtime_exc_t\<close> out.
\<close>

record runtime_exc_t =
  message :: string
  backtrace :: "string list"

record ('t, 's, 'j) externals =
  HASH_REGION_HASH_SIZE :: "64 word"
  hash_region_hasher :: "store_key_t \<Rightarrow> 64 word"
  last_key_in_range :: "key_range_t \<Rightarrow> store_key_t"
  eval :: "'t \<Rightarrow> 's \<Rightarrow> runtime_exc_t + 'j atom_t"
  put_in_scope :: "string \<Rightarrow> 'j atom_t \<Rightarrow> 's \<Rightarrow> 's"

text \<open>
  Modelled from the spec: the constructor \<^verbatim>\<open>key_range_t(closed, l, closed, r)\<close> is
  not in \<^verbatim>\<open>protocol.cc\<close>. The range is closed on both ends; with an exclusive right
  bound that bound is the successor of \<open>r\<close>, which is \<open>r\<close> followed by a zero byte.
\<close>

definition key_range_closed :: "store_key_t \<Rightarrow> store_key_t \<Rightarrow> key_range_t" where
  "key_range_closed l r = \<lparr>left = l, right = Bounded (r @ [CHR 0x00])\<rparr>"

text \<open>
  Modelled from the spec: \<^verbatim>\<open>key_range_t::universe()\<close> is not in
  \<^verbatim>\<open>protocol.cc\<close>. The universal key range starts at the empty key and has no right
  bound.
\<close>

definition key_range_universe :: key_range_t where
  "key_range_universe = \<lparr>left = [], right = Unbounded\<rparr>"

text \<open>
  Modelled from the spec: the constructor \<^verbatim>\<open>region_t(key_range)\<close> is not in
  \<^verbatim>\<open>protocol.cc\<close>. It lifts a key range into a region that spans the full hash
  universe, from 0 to the hash size.
\<close>

definition region_of_range :: "64 word \<Rightarrow> key_range_t \<Rightarrow> region_t" where
  "region_of_range hash_size kr = \<lparr>beg = 0, end_hash = hash_size, inner = kr\<rparr>"

text \<open>
  Modelled from the spec: \<^verbatim>\<open>region_is_superset\<close> is not in \<^verbatim>\<open>protocol.cc\<close>.
  It is componentwise: the hash interval of the first region contains that of the
  second, and so does its key range (its left key is not greater, its right bound not
  smaller, no bound being the greatest).
\<close>

fun right_bound_le :: "right_bound_t \<Rightarrow> right_bound_t \<Rightarrow> bool" where
  "right_bound_le _ Unbounded = True"
| "right_bound_le Unbounded (Bounded _) = False"
| "right_bound_le (Bounded a) (Bounded b) = (a \<le> b)"

definition key_range_is_superset :: "key_range_t \<Rightarrow> key_range_t \<Rightarrow> bool" where
  "key_range_is_superset a b = (left a \<le> left b \<and> right_bound_le (right b) (right a))"

definition region_is_superset :: "region_t \<Rightarrow> region_t \<Rightarrow> bool" where
  "region_is_superset a b =
     (beg a \<le> beg b \<and> end_hash b \<le> end_hash a \<and> key_range_is_superset (inner a) (inner b))"

text \<open>\<^verbatim>\<open>rdb_protocol_t::monokey_region\<close>: the region of one key; \<open>h + 1\<close> is unsigned
  64-bit addition.\<close>

definition monokey_region :: "(store_key_t \<Rightarrow> 64 word) \<Rightarrow> store_key_t \<Rightarrow> region_t" where
  "monokey_region hasher k =
     (let h = hasher k in \<lparr>beg = h, end_hash = h + 1, inner = key_range_closed k k\<rparr>)"

subsection \<open>Reads\<close>

text \<open>
  The terminal of a range read is one of four alternatives; \<^verbatim>\<open>rg.terminal\<close> is a
  \<^verbatim>\<open>boost::optional\<close> of them. Of a reduction only the four parts the merge reads
  are kept: the two variable names, the base term and the body term.
\<close>

record 't reduction_t =
  var1 :: string
  var2 :: string
  base :: 't
  body :: 't

datatype 't terminal_t =
  Builtin_GroupedMapReduce "'t reduction_t"
| Reduction "'t reduction_t"
| Length
| WriteQuery_ForEach 't

record point_read_t =
  key :: store_key_t

record ('t, 's) rget_read_t =
  key_range :: key_range_t
  maximum :: nat
  transform :: "'t list"
  terminal :: "'t terminal_t option"
  scopes :: 's

record distribution_read_t =
  max_depth :: int
  dg_range :: key_range_t

datatype ('t, 's) read_t =
  PointRead point_read_t
| RgetRead "('t, 's) rget_read_t"
| DistributionRead distribution_read_t

text \<open>\<^verbatim>\<open>r_get_region_visitor\<close> and \<^verbatim>\<open>read_t::get_region\<close>.\<close>

fun get_region :: "('t, 's, 'j) externals \<Rightarrow> ('t, 's) read_t \<Rightarrow> region_t" where
  "get_region X (PointRead pr) = monokey_region (hash_region_hasher X) (key pr)"
| "get_region X (RgetRead rg) = region_of_range (HASH_REGION_HASH_SIZE X) (key_range rg)"
| "get_region X (DistributionRead dg) = region_of_range (HASH_REGION_HASH_SIZE X) (dg_range dg)"

text \<open>\<^verbatim>\<open>r_shard_visitor\<close> and \<^verbatim>\<open>read_t::shard\<close>. Each alternative asserts its
  precondition, then a range or distribution read takes the key range of the region.\<close>

fun shard :: "('t, 's, 'j) externals \<Rightarrow> ('t, 's) read_t \<Rightarrow> region_t \<Rightarrow> failure + ('t, 's) read_t" where
  "shard X (PointRead pr) region =
     (if monokey_region (hash_region_hasher X) (key pr) = region then Inr (PointRead pr)
      else Inl AssertionFailed)"
| "shard X (RgetRead rg) region =
     (if region_is_superset (region_of_range (HASH_REGION_HASH_SIZE X) (key_range rg)) region
      then Inr (RgetRead (rg\<lparr>key_range := inner region\<rparr>))
      else Inl AssertionFailed)"
| "shard X (DistributionRead dg) region =
     (if region_is_superset (region_of_range (HASH_REGION_HASH_SIZE X) (dg_range dg)) region
      then Inr (DistributionRead (dg\<lparr>dg_range := inner region\<rparr>))
      else Inl AssertionFailed)"

subsection \<open>Writes\<close>

text \<open>
  The three write alternatives (a point modify has a key, a primary key, an operation,
  a mapping and scopes) and their responses, each a small status. \<^verbatim>\<open>write_t::unshard\<close>
  asserts that there is one response and returns it; \<^verbatim>\<open>write_t::multistore_unshard\<close>
  calls \<^verbatim>\<open>unshard\<close> with its own arguments. Neither looks at the write.
\<close>

datatype ('t, 's, 'j) write_t =
  PointWrite store_key_t "'j atom_t"
| PointModify store_key_t string nat 't 's
| PointDelete store_key_t

datatype write_response_t =
  PointWriteResponse nat
| PointModifyResponse nat runtime_exc_t
| PointDeleteResponse nat

definition write_unshard ::
  "('t, 's, 'j) write_t \<Rightarrow> write_response_t list \<Rightarrow> failure + write_response_t" where
  "write_unshard w responses =
     (if length responses = 1 then Inr (responses ! 0) else Inl AssertionFailed)"

definition write_multistore_unshard ::
  "('t, 's, 'j) write_t \<Rightarrow> write_response_t list \<Rightarrow> failure + write_response_t" where
  "write_multistore_unshard w responses = write_unshard w responses"

subsection \<open>Read responses\<close>

text \<open>
  The result of a range read is a variant of six alternatives: a stream of key and
  value pairs, groups, an atom, a length, a count of inserted rows, or a runtime error.
  A default-constructed response is given the empty stream here; every path of the two
  merges assigns the result before it returns.
\<close>

type_synonym 'j stream_t = "(store_key_t \<times> 'j atom_t) list"

type_synonym 'j groups_t = "('j atom_t \<times> 'j atom_t) list"

datatype 'j result_t =
  Stream "'j stream_t"
| Groups "'j groups_t"
| Atom "'j atom_t"
| Length_t int
| Inserted_t int
| Runtime_exc runtime_exc_t

record 'j rget_read_response_t =
  result :: "'j result_t"
  truncated :: bool
  response_key_range :: key_range_t
  last_considered_key :: store_key_t

type_synonym key_counts_t = "(store_key_t \<times> int) list"

datatype 'j read_response_t =
  PointReadResponse "'j atom_t"
| RgetReadResponse "'j rget_read_response_t"
| DistributionReadResponse key_counts_t

text \<open>\<^verbatim>\<open>boost::get\<close> at each alternative the merge asks for.\<close>

fun get_rget :: "'j read_response_t \<Rightarrow> 'j rget_read_response_t option" where
  "get_rget (RgetReadResponse rr) = Some rr"
| "get_rget _ = None"

fun get_point :: "'j read_response_t \<Rightarrow> 'j atom_t option" where
  "get_point (PointReadResponse d) = Some d"
| "get_point _ = None"

fun get_distribution :: "'j read_response_t \<Rightarrow> key_counts_t option" where
  "get_distribution (DistributionReadResponse kc) = Some kc"
| "get_distribution _ = None"

fun get_stream :: "'j result_t \<Rightarrow> 'j stream_t option" where
  "get_stream (Stream s) = Some s"
| "get_stream _ = None"

fun get_groups :: "'j result_t \<Rightarrow> 'j groups_t option" where
  "get_groups (Groups g) = Some g"
| "get_groups _ = None"

fun get_atom :: "'j result_t \<Rightarrow> 'j atom_t option" where
  "get_atom (Atom a) = Some a"
| "get_atom _ = None"

fun get_length :: "'j result_t \<Rightarrow> int option" where
  "get_length (Length_t n) = Some n"
| "get_length _ = None"

fun get_inserted :: "'j result_t \<Rightarrow> int option" where
  "get_inserted (Inserted_t n) = Some n"
| "get_inserted _ = None"

fun get_runtime_exc :: "'j result_t \<Rightarrow> runtime_exc_t option" where
  "get_runtime_exc (Runtime_exc e) = Some e"
| "get_runtime_exc _ = None"

subsection \<open>The body of the try block\<close>

text \<open>
  Inside \<^verbatim>\<open>try\<close> a step finishes, throws a \<^verbatim>\<open>runtime_exc_t\<close> (which the
  \<^verbatim>\<open>catch\<close> turns into the result) or ends the call.
\<close>

datatype 'a attempt = Done 'a | Thrown runtime_exc_t | Crashed failure

fun and_then :: "'a attempt \<Rightarrow> ('a \<Rightarrow> 'b attempt) \<Rightarrow> 'b attempt" where
  "and_then (Done x) f = f x"
| "and_then (Thrown e) f = Thrown e"
| "and_then (Crashed c) f = Crashed c"

text \<open>The first loop of both range-read merges: the first response whose result is a
  runtime error throws it.\<close>

fun check_thrown :: "'j read_response_t list \<Rightarrow> unit attempt" where
  "check_thrown [] = Done ()"
| "check_thrown (r # rs) =
     (case get_rget r of
        None \<Rightarrow> Crashed AssertionFailed
      | Some rr \<Rightarrow>
          (case get_runtime_exc (result rr) of
             Some e \<Rightarrow> Thrown e
           | None \<Rightarrow> check_thrown rs))"

text \<open>Single store, no terminal: the streams are appended in order, \<open>truncated\<close> is
  or-ed, and the last considered key rises to the largest of the pieces'.\<close>

fun unshard_streams ::
  "'j read_response_t list \<Rightarrow> 'j stream_t \<Rightarrow> 'j rget_read_response_t \<Rightarrow>
     'j rget_read_response_t attempt" where
  "unshard_streams [] res_stream out = Done (out\<lparr>result := Stream res_stream\<rparr>)"
| "unshard_streams (r # rs) res_stream out =
     (case get_rget r of
        None \<Rightarrow> Crashed AssertionFailed
      | Some rr \<Rightarrow>
          (case get_stream (result rr) of
             None \<Rightarrow> Crashed InvalidDereference
           | Some s \<Rightarrow>
               unshard_streams rs (res_stream @ s)
                 (out\<lparr>truncated := truncated out \<or> truncated rr,
                      last_considered_key :=
                        (if last_considered_key out < last_considered_key rr
                         then last_considered_key rr else last_considered_key out)\<rparr>)))"

text \<open>
  Multistore, no terminal. The first loop lowers the last considered key, which starts
  at \<^verbatim>\<open>last_key_in_range()\<close> of the read's range, to the key of every piece whose
  stream has exactly \<open>maximum\<close> elements and whose key is smaller.
\<close>

fun find_last_considered_key ::
  "nat \<Rightarrow> 'j read_response_t list \<Rightarrow> store_key_t \<Rightarrow> store_key_t attempt" where
  "find_last_considered_key mx [] lck = Done lck"
| "find_last_considered_key mx (r # rs) lck =
     (case get_rget r of
        None \<Rightarrow> Crashed GuaranteeFailed
      | Some rr \<Rightarrow>
          (case get_stream (result rr) of
             None \<Rightarrow> Crashed GuaranteeFailed
           | Some s \<Rightarrow>
               find_last_considered_key mx rs
                 (if length s = mx
                  then (if last_considered_key rr < lck then last_considered_key rr else lck)
                  else lck)))"

text \<open>The second loop pushes the pairs whose key is at most the last considered key,
  piece after piece, and or-s \<open>truncated\<close>.\<close>

fun filter_streams ::
  "'j read_response_t list \<Rightarrow> 'j stream_t \<Rightarrow> 'j rget_read_response_t \<Rightarrow>
     'j rget_read_response_t attempt" where
  "filter_streams [] res_stream out = Done (out\<lparr>result := Stream res_stream\<rparr>)"
| "filter_streams (r # rs) res_stream out =
     (case get_rget r of
        None \<Rightarrow> Crashed AssertionFailed
      | Some rr \<Rightarrow>
          (case get_stream (result rr) of
             None \<Rightarrow> Crashed InvalidDereference
           | Some s \<Rightarrow>
               filter_streams rs
                 (res_stream @ filter (\<lambda>jt. fst jt \<le> last_considered_key out) s)
                 (out\<lparr>truncated := truncated out \<or> truncated rr\<rparr>)))"

subsection \<open>Ordered maps\<close>

text \<open>
  A \<^verbatim>\<open>std::map\<close> as the list of its entries, ascending by key (for groups the
  comparator of JSON values is the order of the type of values). \<open>get_with_default\<close>
  looks a key up, \<open>map_assign\<close> is \<^verbatim>\<open>m[k] = v\<close>, and \<open>map_insert\<close> is
  \<^verbatim>\<open>insert\<close>, which leaves an entry that is already there.
\<close>

definition get_with_default :: "('k \<times> 'v) list \<Rightarrow> 'k \<Rightarrow> 'v \<Rightarrow> 'v" where
  "get_with_default m k d = (case map_of m k of None \<Rightarrow> d | Some v \<Rightarrow> v)"

fun map_assign :: "'k::linorder \<Rightarrow> 'v \<Rightarrow> ('k \<times> 'v) list \<Rightarrow> ('k \<times> 'v) list" where
  "map_assign k v [] = [(k, v)]"
| "map_assign k v (e # es) =
     (if k = fst e then (k, v) # es
      else if k < fst e then (k, v) # e # es
      else e # map_assign k v es)"

fun map_insert :: "'k::linorder \<Rightarrow> 'v \<Rightarrow> ('k \<times> 'v) list \<Rightarrow> ('k \<times> 'v) list" where
  "map_insert k v [] = [(k, v)]"
| "map_insert k v (e # es) =
     (if k = fst e then e # es
      else if k < fst e then (k, v) # e # es
      else e # map_insert k v es)"

subsection \<open>Merging under a terminal\<close>

text \<open>
  Grouped map-reduce: for every group of every piece, in order, the base is evaluated,
  the two variables are bound in a fresh scope (the group's value so far, or the base;
  and the piece's value), and the body's value becomes the group's value.
\<close>

fun reduce_groups ::
  "('t, 's, 'j::linorder) externals \<Rightarrow> 't reduction_t \<Rightarrow> 's \<Rightarrow> 'j groups_t \<Rightarrow> 'j groups_t \<Rightarrow>
     'j groups_t attempt" where
  "reduce_groups X r sc [] res_groups = Done res_groups"
| "reduce_groups X r sc (j # js) res_groups =
     (case eval X (base r) sc of
        Inl e \<Rightarrow> Thrown e
      | Inr b \<Rightarrow>
          (case eval X (body r)
                  (put_in_scope X (var2 r) (snd j)
                     (put_in_scope X (var1 r) (get_with_default res_groups (fst j) b) sc)) of
             Inl e \<Rightarrow> Thrown e
           | Inr v \<Rightarrow> reduce_groups X r sc js (map_assign (fst j) v res_groups)))"

fun unshard_groups ::
  "('t, 's, 'j::linorder) externals \<Rightarrow> 't reduction_t \<Rightarrow> 's \<Rightarrow> 'j read_response_t list \<Rightarrow>
     'j groups_t \<Rightarrow> 'j groups_t attempt" where
  "unshard_groups X r sc [] res_groups = Done res_groups"
| "unshard_groups X r sc (i # is) res_groups =
     (case get_rget i of
        None \<Rightarrow> Crashed GuaranteeFailed
      | Some rr \<Rightarrow>
          (case get_groups (result rr) of
             None \<Rightarrow> Crashed InvalidDereference
           | Some groups \<Rightarrow>
               and_then (reduce_groups X r sc groups res_groups) (unshard_groups X r sc is)))"

text \<open>Reduction: the accumulator starts at the base and takes the body's value at every
  piece's atom.\<close>

fun unshard_atoms ::
  "('t, 's, 'j) externals \<Rightarrow> 't reduction_t \<Rightarrow> 's \<Rightarrow> 'j read_response_t list \<Rightarrow>
     'j atom_t \<Rightarrow> 'j atom_t attempt" where
  "unshard_atoms X r sc [] res_atom = Done res_atom"
| "unshard_atoms X r sc (i # is) res_atom =
     (case get_rget i of
        None \<Rightarrow> Crashed GuaranteeFailed
      | Some rr \<Rightarrow>
          (case get_atom (result rr) of
             None \<Rightarrow> Crashed InvalidDereference
           | Some atom \<Rightarrow>
               (case eval X (body r)
                       (put_in_scope X (var2 r) atom (put_in_scope X (var1 r) res_atom sc)) of
                  Inl e \<Rightarrow> Thrown e
                | Inr v \<Rightarrow> unshard_atoms X r sc is v)))"

text \<open>Length and for-each: the pieces' numbers are added up.\<close>

fun unshard_lengths :: "'j read_response_t list \<Rightarrow> int \<Rightarrow> int attempt" where
  "unshard_lengths [] res_length = Done res_length"
| "unshard_lengths (i # is) res_length =
     (case get_rget i of
        None \<Rightarrow> Crashed GuaranteeFailed
      | Some rr \<Rightarrow>
          (case get_length (result rr) of
             None \<Rightarrow> Crashed InvalidDereference
           | Some n \<Rightarrow> unshard_lengths is (res_length + n)))"

fun unshard_inserted :: "'j read_response_t list \<Rightarrow> int \<Rightarrow> int attempt" where
  "unshard_inserted [] res_inserted = Done res_inserted"
| "unshard_inserted (i # is) res_inserted =
     (case get_rget i of
        None \<Rightarrow> Crashed GuaranteeFailed
      | Some rr \<Rightarrow>
          (case get_inserted (result rr) of
             None \<Rightarrow> Crashed InvalidDereference
           | Some n \<Rightarrow> unshard_inserted is (res_inserted + n)))"

text \<open>
  The four branches for a read with a terminal, the same text in both visitors. The
  length branch and the for-each branch assign \<^verbatim>\<open>atom_t()\<close> to the result, ask the
  result for its \<^verbatim>\<open>length_t\<close> (its \<^verbatim>\<open>inserted_t\<close>) and write 0 through the
  pointer they get.
\<close>

fun unshard_terminal ::
  "('t, 's, 'j::linorder) externals \<Rightarrow> ('t, 's) rget_read_t \<Rightarrow> 'j read_response_t list \<Rightarrow>
     'j rget_read_response_t \<Rightarrow> 't terminal_t \<Rightarrow> 'j rget_read_response_t attempt" where
  "unshard_terminal X rg responses out (Builtin_GroupedMapReduce r) =
     and_then (unshard_groups X r (scopes rg) responses [])
       (\<lambda>res_groups. Done (out\<lparr>result := Groups res_groups\<rparr>))"
| "unshard_terminal X rg responses out (Reduction r) =
     (case eval X (base r) (scopes rg) of
        Inl e \<Rightarrow> Thrown e
      | Inr b \<Rightarrow>
          and_then (unshard_atoms X r (scopes rg) responses b)
            (\<lambda>res_atom. Done (out\<lparr>result := Atom res_atom\<rparr>)))"
| "unshard_terminal X rg responses out Length =
     (case get_length (Atom None :: 'j result_t) of
        None \<Rightarrow> Crashed InvalidDereference
      | Some _ \<Rightarrow>
          and_then (unshard_lengths responses 0)
            (\<lambda>res_length. Done (out\<lparr>result := Length_t res_length\<rparr>)))"
| "unshard_terminal X rg responses out (WriteQuery_ForEach _) =
     (case get_inserted (Atom None :: 'j result_t) of
        None \<Rightarrow> Crashed InvalidDereference
      | Some _ \<Rightarrow>
          and_then (unshard_inserted responses 0)
            (\<lambda>res_inserted. Done (out\<lparr>result := Inserted_t res_inserted\<rparr>)))"

subsection \<open>Range reads: the two visitors\<close>

text \<open>The response as both visitors set it up before the try block.\<close>

definition initial_response ::
  "('t, 's, 'j) externals \<Rightarrow> ('t, 's) rget_read_t \<Rightarrow> 'j rget_read_response_t" where
  "initial_response X rg =
     \<lparr>result = Stream [],
      truncated = False,
      response_key_range = inner (get_region X (RgetRead rg)),
      last_considered_key = left (inner (get_region X (RgetRead rg)))\<rparr>"

text \<open>The catch: a thrown runtime error becomes the result of the response.\<close>

fun catch_runtime_exc ::
  "'j rget_read_response_t \<Rightarrow> 'j rget_read_response_t attempt \<Rightarrow>
     failure + 'j rget_read_response_t" where
  "catch_runtime_exc out (Done res) = Inr res"
| "catch_runtime_exc out (Thrown e) = Inr (out\<lparr>result := Runtime_exc e\<rparr>)"
| "catch_runtime_exc out (Crashed c) = Inl c"

definition unshard_rget ::
  "('t, 's, 'j::linorder) externals \<Rightarrow> ('t, 's) rget_read_t \<Rightarrow> 'j read_response_t list \<Rightarrow>
     failure + 'j rget_read_response_t" where
  "unshard_rget X rg responses =
     (let out = initial_response X rg in
      catch_runtime_exc out
        (and_then (check_thrown responses)
           (\<lambda>_. case terminal rg of
                  None \<Rightarrow> unshard_streams responses [] out
                | Some trm \<Rightarrow> unshard_terminal X rg responses out trm)))"

definition multistore_unshard_rget ::
  "('t, 's, 'j::linorder) externals \<Rightarrow> ('t, 's) rget_read_t \<Rightarrow> 'j read_response_t list \<Rightarrow>
     failure + 'j rget_read_response_t" where
  "multistore_unshard_rget X rg responses =
     (let out = initial_response X rg in
      catch_runtime_exc out
        (and_then (check_thrown responses)
           (\<lambda>_. case terminal rg of
                  None \<Rightarrow>
                    and_then
                      (find_last_considered_key (maximum rg) responses
                         (last_key_in_range X (inner (get_region X (RgetRead rg)))))
                      (\<lambda>lck. filter_streams responses [] (out\<lparr>last_considered_key := lck\<rparr>))
                | Some trm \<Rightarrow> unshard_terminal X rg responses out trm)))"

subsection \<open>Double-precision arithmetic\<close>

text \<open>
  The distribution merge computes in \<^verbatim>\<open>double\<close> (IEEE 754 binary64, round to
  nearest, ties to even). A finite double is a rational; every operation returns the
  exact result rounded to 53 significant bits, ties to the even neighbour. Exponent
  range is left out: the operands here are 64-bit integers, their quotient and its
  product with a 32-bit integer, all far from overflow and underflow. \<open>binary_exponent x\<close> is the \<open>e\<close> with \<open>2^e \<le> x < 2^(e+1)\<close>, for a
  positive \<open>x\<close>.
\<close>

definition pow2 :: "int \<Rightarrow> rat" where
  "pow2 e = (if 0 \<le> e then 2 ^ nat e else 1 / 2 ^ nat (- e))"

definition round_half_even :: "rat \<Rightarrow> int" where
  "round_half_even x =
     (let f = \<lfloor>x\<rfloor>; d = x - of_int f in
      if d < 1 / 2 then f
      else if 1 / 2 < d then f + 1
      else if even f then f else f + 1)"

definition binary_exponent :: "rat \<Rightarrow> int" where
  "binary_exponent x =
     (if 1 \<le> x then int (floorlog 2 (nat \<lfloor>x\<rfloor>)) - 1
      else - int (floorlog 2 (nat (\<lceil>1 / x\<rceil> - 1))))"

definition round_double :: "rat \<Rightarrow> rat" where
  "round_double x =
     (if x = 0 then 0
      else (let e = binary_exponent \<bar>x\<bar> - 52 in
            of_int (round_half_even (x / pow2 e)) * pow2 e))"

text \<open>\<^verbatim>\<open>static_cast\<close> to \<^verbatim>\<open>int\<close>: the fraction is dropped; a value outside the
  32-bit range has no defined result.\<close>

definition truncate :: "rat \<Rightarrow> int" where
  "truncate d = (if 0 \<le> d then \<lfloor>d\<rfloor> else \<lceil>d\<rceil>)"

definition double_to_int :: "rat \<Rightarrow> failure + int" where
  "double_to_int d =
     (if - (2 ^ 31) \<le> truncate d \<and> truncate d < 2 ^ 31 then Inr (truncate d)
      else Inl CastOutOfRange)"

text \<open>The scale factor of the distribution merge: both 64-bit sums are converted to
  \<^verbatim>\<open>double\<close> and divided.\<close>

definition scale_factor :: "int \<Rightarrow> int \<Rightarrow> rat" where
  "scale_factor total_num_keys total_keys_in_res =
     round_double (round_double (of_int total_num_keys) / round_double (of_int total_keys_in_res))"

subsection \<open>Point and distribution reads\<close>

text \<open>A point read has one response, a point response, and returns it (both visitors).\<close>

definition unshard_point :: "'j read_response_t list \<Rightarrow> failure + 'j read_response_t" where
  "unshard_point responses =
     (if length responses \<noteq> 1 then Inl AssertionFailed
      else if get_point (responses ! 0) = None then Inl AssertionFailed
      else Inr (responses ! 0))"

text \<open>\<^verbatim>\<open>key_counts.begin()->first\<close> of a response; there is none for an empty map.\<close>

fun begin_first :: "'j read_response_t \<Rightarrow> store_key_t option" where
  "begin_first (DistributionReadResponse ((k, _) # _)) = Some k"
| "begin_first _ = None"

text \<open>Single store: the pieces' entries are inserted into one map; a key seen before is
  an assertion failure.\<close>

fun insert_pieces :: "'j read_response_t list \<Rightarrow> key_counts_t \<Rightarrow> failure + key_counts_t" where
  "insert_pieces [] response = Inr response"
| "insert_pieces (r # rs) response =
     (case get_distribution r of
        None \<Rightarrow> Inl AssertionFailed
      | Some piece \<Rightarrow>
          if list_ex (\<lambda>it. map_of response (fst it) \<noteq> None) piece then Inl AssertionFailed
          else insert_pieces rs (fold (\<lambda>it m. map_insert (fst it) (snd it) m) piece response))"

definition unshard_distribution :: "'j read_response_t list \<Rightarrow> failure + key_counts_t" where
  "unshard_distribution responses =
     (if \<not> 0 < length responses then Inl AssertionFailed
      else if get_distribution (responses ! 0) = None then Inl AssertionFailed
      else if \<not> (length responses = 1 \<or> get_distribution (responses ! 1) \<noteq> None)
        then Inl AssertionFailed
      else if 1 < length responses
        then (case (begin_first (responses ! 0), begin_first (responses ! 1)) of
                (Some k0, Some k1) \<Rightarrow>
                  if k0 = k1 then Inl AssertionFailed else insert_pieces responses []
              | _ \<Rightarrow> Inl InvalidDereference)
      else insert_pieces responses [])"

text \<open>
  Multistore. The loop adds up every piece's counts into \<open>total_num_keys\<close> and copies
  a piece into the response whenever the response has fewer entries than the piece,
  remembering that piece's sum as \<open>total_keys_in_res\<close>. The state is the triple of
  the response, \<open>total_num_keys\<close> and \<open>total_keys_in_res\<close>.
\<close>

fun select_piece ::
  "'j read_response_t list \<Rightarrow> key_counts_t \<times> int \<times> int \<Rightarrow>
     failure + key_counts_t \<times> int \<times> int" where
  "select_piece [] st = Inr st"
| "select_piece (r # rs) (response, total_num_keys, total_keys_in_res) =
     (case get_distribution r of
        None \<Rightarrow> Inl AssertionFailed
      | Some response_piece \<Rightarrow>
          (let tmp_total_keys = fold (\<lambda>it tmp. tmp + snd it) response_piece 0 in
           select_piece rs
             (if length response < length response_piece
              then (response_piece, total_num_keys + tmp_total_keys, tmp_total_keys)
              else (response, total_num_keys + tmp_total_keys, total_keys_in_res))))"

text \<open>The last loop: every count becomes the integer part of its product with the scale
  factor.\<close>

fun scale_key_counts :: "rat \<Rightarrow> key_counts_t \<Rightarrow> failure + key_counts_t" where
  "scale_key_counts sf [] = Inr []"
| "scale_key_counts sf (it # its) =
     (case double_to_int (round_double (of_int (snd it) * sf)) of
        Inl c \<Rightarrow> Inl c
      | Inr n \<Rightarrow>
          (case scale_key_counts sf its of
             Inl c \<Rightarrow> Inl c
           | Inr rest \<Rightarrow> Inr ((fst it, n) # rest)))"

definition multistore_unshard_distribution ::
  "'j read_response_t list \<Rightarrow> failure + key_counts_t" where
  "multistore_unshard_distribution responses =
     (if \<not> 0 < length responses then Inl AssertionFailed
      else if get_distribution (responses ! 0) = None then Inl AssertionFailed
      else if \<not> (length responses = 1 \<or> get_distribution (responses ! 1) \<noteq> None)
        then Inl AssertionFailed
      else if \<not> 1 < length responses then Inl AssertionFailed
      else (case (begin_first (responses ! 0), begin_first (responses ! 1)) of
              (Some k0, Some k1) \<Rightarrow>
                if k0 \<noteq> k1 then Inl AssertionFailed
                else (case select_piece responses ([], 0, 0) of
                        Inl c \<Rightarrow> Inl c
                      | Inr (response, total_num_keys, total_keys_in_res) \<Rightarrow>
                          if total_keys_in_res = 0 then Inr response
                          else if \<not> 1 \<le> scale_factor total_num_keys total_keys_in_res
                            then Inl AssertionFailed
                          else scale_key_counts
                                 (scale_factor total_num_keys total_keys_in_res) response)
            | _ \<Rightarrow> Inl InvalidDereference))"

subsection \<open>The entry points\<close>

fun unshard ::
  "('t, 's, 'j::linorder) externals \<Rightarrow> ('t, 's) read_t \<Rightarrow> 'j read_response_t list \<Rightarrow>
     failure + 'j read_response_t" where
  "unshard X (PointRead _) responses = unshard_point responses"
| "unshard X (RgetRead rg) responses =
     (case unshard_rget X rg responses of
        Inl c \<Rightarrow> Inl c
      | Inr res \<Rightarrow> Inr (RgetReadResponse res))"
| "unshard X (DistributionRead _) responses =
     (case unshard_distribution responses of
        Inl c \<Rightarrow> Inl c
      | Inr kc \<Rightarrow> Inr (DistributionReadResponse kc))"

fun multistore_unshard ::
  "('t, 's, 'j::linorder) externals \<Rightarrow> ('t, 's) read_t \<Rightarrow> 'j read_response_t list \<Rightarrow>
     failure + 'j read_response_t" where
  "multistore_unshard X (PointRead _) responses = unshard_point responses"
| "multistore_unshard X (RgetRead rg) responses =
     (case multistore_unshard_rget X rg responses of
        Inl c \<Rightarrow> Inl c
      | Inr res \<Rightarrow> Inr (RgetReadResponse res))"
| "multistore_unshard X (DistributionRead _) responses =
     (case multistore_unshard_distribution responses of
        Inl c \<Rightarrow> Inl c
      | Inr kc \<Rightarrow> Inr (DistributionReadResponse kc))"

subsection \<open>CPU sharding\<close>

text \<open>
  \<^verbatim>\<open>cpu_sharding_subspace\<close>. Both arguments are 32-bit signed integers; the width,
  \<open>beg\<close> and \<open>end\<close> are unsigned 64-bit, and the arguments are converted to that type
  where they meet it. The size of the hash space is the first argument here.
\<close>

definition cpu_sharding_subspace :: "64 word \<Rightarrow> 32 word \<Rightarrow> 32 word \<Rightarrow> failure + region_t" where
  "cpu_sharding_subspace hash_size subregion_number num_cpu_shards =
     (if \<not> 0 \<le>s subregion_number then Inl AssertionFailed
      else if \<not> subregion_number <s num_cpu_shards then Inl AssertionFailed
      else (let width = hash_size div scast num_cpu_shards;
                b = width * scast subregion_number;
                e = (if subregion_number + 1 = num_cpu_shards then hash_size else b + width)
            in Inr \<lparr>beg = b, end_hash = e, inner = key_range_universe\<rparr>))"

subsection \<open>Vocabulary of the statements\<close>

text \<open>
  A piece is a stream piece when its result holds the stream alternative; \<open>stream_of\<close>
  reads that stream, and a piece is a full page for a maximum when its stream has that
  many elements.
\<close>

definition is_stream :: "'j rget_read_response_t \<Rightarrow> bool" where
  "is_stream p = (get_stream (result p) \<noteq> None)"

definition stream_of :: "'j rget_read_response_t \<Rightarrow> 'j stream_t" where
  "stream_of p = (case result p of Stream s \<Rightarrow> s | _ \<Rightarrow> [])"

definition full_page :: "nat \<Rightarrow> 'j rget_read_response_t \<Rightarrow> bool" where
  "full_page mx p = (length (stream_of p) = mx)"

subsection \<open>Values for the examples\<close>

text \<open>
  A small instance of the externals: a hash space of 16 values, a hash by key length
  and an evaluator that returns its term. Modelled from the spec:
  \<^verbatim>\<open>key_range_t::last_key_in_range\<close> is not in \<^verbatim>\<open>protocol.cc\<close>; it is the
  upper bound of the range, and the largest key when the range has no right bound.
\<close>

definition toy_externals :: "(nat, nat, nat) externals" where
  "toy_externals =
     \<lparr>HASH_REGION_HASH_SIZE = 16,
      hash_region_hasher = (\<lambda>k. of_nat (length k mod 16)),
      last_key_in_range = (\<lambda>r. case right r of Bounded k \<Rightarrow> k | Unbounded \<Rightarrow> replicate 250 (CHR 0xFF)),
      eval = (\<lambda>t s. Inr (Some t)),
      put_in_scope = (\<lambda>n v s. s)\<rparr>"

definition range_a_z :: key_range_t where
  "range_a_z = \<lparr>left = ''a'', right = Bounded ''z''\<rparr>"

definition rget_a_z :: "nat \<Rightarrow> nat terminal_t option \<Rightarrow> (nat, nat) rget_read_t" where
  "rget_a_z mx trm =
     \<lparr>key_range = range_a_z, maximum = mx, transform = [], terminal = trm, scopes = 0\<rparr>"

definition piece :: "nat result_t \<Rightarrow> store_key_t \<Rightarrow> nat rget_read_response_t" where
  "piece res lck =
     \<lparr>result = res, truncated = False, response_key_range = range_a_z,
      last_considered_key = lck\<rparr>"

text \<open>
  The hash values of a region, and those of the subspace that \<open>cpu_sharding_subspace\<close>
  returns for an index (none when it fails its assertions).
\<close>

definition hash_interval :: "region_t \<Rightarrow> 64 word set" where
  "hash_interval r = {h. beg r \<le> h \<and> h < end_hash r}"

definition subspace_hashes :: "64 word \<Rightarrow> 32 word \<Rightarrow> 32 word \<Rightarrow> 64 word set" where
  "subspace_hashes hash_size n i =
     (case cpu_sharding_subspace hash_size i n of Inl _ \<Rightarrow> {} | Inr r \<Rightarrow> hash_interval r)"




section \<open>Properties\<close>

subsection \<open>Helper lemmas\<close>

lemma right_bound_le_refl: "right_bound_le b b"
  by (cases b) simp_all

lemma region_is_superset_refl: "region_is_superset r r"
  by (simp add: region_is_superset_def key_range_is_superset_def right_bound_le_refl)

lemma is_stream_result: "is_stream p \<Longrightarrow> result p = Stream (stream_of p)"
  by (cases "result p") (simp_all add: is_stream_def stream_of_def)

lemma is_stream_get: "is_stream p \<Longrightarrow> get_stream (result p) = Some (stream_of p)"
  by (cases "result p") (simp_all add: is_stream_def stream_of_def)

lemma is_stream_no_exc: "is_stream p \<Longrightarrow> get_runtime_exc (result p) = None"
  by (cases "result p") (simp_all add: is_stream_def)

lemma check_thrown_first:
  assumes "\<forall>p\<in>set pre. get_runtime_exc (result p) = None"
  shows "check_thrown
           (map RgetReadResponse pre @ RgetReadResponse (bad\<lparr>result := Runtime_exc e\<rparr>) # post)
         = Thrown e"
  using assms by (induction pre) simp_all

lemma check_thrown_none:
  assumes "\<forall>p\<in>set rrs. get_runtime_exc (result p) = None"
  shows "check_thrown (map RgetReadResponse rrs) = Done ()"
  using assms by (induction rrs) simp_all

lemma check_thrown_streams:
  assumes "\<forall>p\<in>set rrs. is_stream p"
  shows "check_thrown (map RgetReadResponse rrs) = Done ()"
  using assms by (simp add: check_thrown_none is_stream_no_exc)

text \<open>The first multistore loop computes a running minimum over the full pages.\<close>

lemma find_last_considered_key_fold:
  assumes "\<forall>p\<in>set rrs. is_stream p"
  shows "find_last_considered_key mx (map RgetReadResponse rrs) k0
         = Done (fold min (map last_considered_key (filter (full_page mx) rrs)) k0)"
  using assms
proof (induction rrs arbitrary: k0)
  case Nil
  then show ?case by simp
next
  case (Cons p rrs)
  then have p: "get_stream (result p) = Some (stream_of p)"
    and rest: "\<forall>q\<in>set rrs. is_stream q"
    by (simp_all add: is_stream_get)
  have step: "(if last_considered_key p < k0 then last_considered_key p else k0)
              = min (last_considered_key p) k0"
    by (auto simp: min_def)
  show ?case
    unfolding list.map find_last_considered_key.simps get_rget.simps option.case p step
    by (simp add: Cons.IH [OF rest] full_page_def)
qed

lemma find_last_considered_key_Min:
  assumes "\<forall>p\<in>set rrs. is_stream p"
  shows "find_last_considered_key mx (map RgetReadResponse rrs) k0
         = Done (Min (insert k0 (last_considered_key ` {p \<in> set rrs. full_page mx p})))"
proof -
  have "Min (insert k0 (last_considered_key ` {p \<in> set rrs. full_page mx p}))
        = Min (set (k0 # map last_considered_key (filter (full_page mx) rrs)))"
    by simp
  also have "\<dots> = fold min (map last_considered_key (filter (full_page mx) rrs)) k0"
    by (rule Min.set_eq_fold)
  finally show ?thesis
    by (simp add: find_last_considered_key_fold [OF assms])
qed

text \<open>The second multistore loop appends each piece's stream, filtered.\<close>

lemma filter_streams_concat:
  assumes "\<forall>p\<in>set rrs. is_stream p"
  shows "filter_streams (map RgetReadResponse rrs) acc out
         = Done (out\<lparr>result :=
                      Stream (acc @ concat (map (\<lambda>p. filter (\<lambda>jt. fst jt \<le> last_considered_key out)
                                                  (stream_of p)) rrs)),
                    truncated := truncated out \<or> list_ex truncated rrs\<rparr>)"
  using assms
proof (induction rrs arbitrary: acc out)
  case Nil
  then show ?case by simp
next
  case (Cons p rrs)
  then have p: "get_stream (result p) = Some (stream_of p)"
    and rest: "\<forall>q\<in>set rrs. is_stream q"
    by (simp_all add: is_stream_get)
  show ?case
    by (simp add: Cons.IH [OF rest] p)
qed

text \<open>The multistore merge of stream pieces, no terminal, in closed form.\<close>

lemma multistore_unshard_streams:
  assumes "terminal rg = None" and "\<forall>p\<in>set rrs. is_stream p"
  shows "multistore_unshard X (RgetRead rg) (map RgetReadResponse rrs)
         = Inr (RgetReadResponse
             \<lparr>result =
                Stream (concat (map (\<lambda>p. filter (\<lambda>jt. fst jt \<le>
                   Min (insert (last_key_in_range X (key_range rg))
                          (last_considered_key ` {p \<in> set rrs. full_page (maximum rg) p})))
                   (stream_of p)) rrs)),
              truncated = list_ex truncated rrs,
              response_key_range = key_range rg,
              last_considered_key =
                Min (insert (last_key_in_range X (key_range rg))
                       (last_considered_key ` {p \<in> set rrs. full_page (maximum rg) p}))\<rparr>)"
  by (simp add: multistore_unshard_rget_def Let_def assms(1) check_thrown_streams [OF assms(2)]
      find_last_considered_key_Min [OF assms(2)] filter_streams_concat [OF assms(2)]
      initial_response_def region_of_range_def)

subsection \<open>Sharding a read by its own region\<close>

text \<open>
  Claim C5. For every read (point read, range read or distribution read), sharding the
  read by the region it declares returns the read itself: the assertion of each
  alternative holds and the key range put into the read is the one it had.
\<close>

theorem shard_get_region_identity: "shard X r (get_region X r) = Inr r"
proof (cases r)
  case (PointRead pr)
  then show ?thesis by simp
next
  case (RgetRead rg)
  then show ?thesis
    by (simp add: region_is_superset_refl) (simp add: region_of_range_def)
next
  case (DistributionRead dg)
  then show ?thesis
    by (simp add: region_is_superset_refl) (simp add: region_of_range_def)
qed

theorem shard_get_region_identity_witness:
  "shard toy_externals (PointRead \<lparr>key = ''a''\<rparr>) (get_region toy_externals (PointRead \<lparr>key = ''a''\<rparr>))
     = Inr (PointRead \<lparr>key = ''a''\<rparr>)
   \<and> beg (get_region toy_externals (PointRead \<lparr>key = ''a''\<rparr>)) = 1
   \<and> end_hash (get_region toy_externals (PointRead \<lparr>key = ''a''\<rparr>)) = 2
   \<and> shard toy_externals (RgetRead (rget_a_z 10 None)) (get_region toy_externals (RgetRead (rget_a_z 10 None)))
     = Inr (RgetRead (rget_a_z 10 None))
   \<and> get_region toy_externals (RgetRead (rget_a_z 10 None))
     = \<lparr>beg = 0, end_hash = 16, inner = range_a_z\<rparr>"
  using shard_get_region_identity [where X = toy_externals and r = "PointRead \<lparr>key = ''a''\<rparr>"]
    shard_get_region_identity [where X = toy_externals and r = "RgetRead (rget_a_z 10 None)"]
  by (simp add: toy_externals_def monokey_region_def key_range_closed_def rget_a_z_def
      region_of_range_def)

subsection \<open>Merging write responses\<close>

text \<open>
  Claim C10. The multistore merge of write responses is the single-store merge, for every
  write: both return the one response of a one-element vector unchanged, and both fail
  their assertion on a vector of any other length.
\<close>

theorem write_multistore_unshard_same:
  "write_multistore_unshard w responses = write_unshard w responses
   \<and> write_unshard w [r] = Inr r
   \<and> write_multistore_unshard w [r] = Inr r
   \<and> (length responses \<noteq> 1 \<longrightarrow>
        write_unshard w responses = Inl AssertionFailed
        \<and> write_multistore_unshard w responses = Inl AssertionFailed)"
  by (simp add: write_multistore_unshard_def write_unshard_def)

theorem write_multistore_unshard_same_witness:
  "write_multistore_unshard (PointDelete ''a'' :: (nat, nat, nat) write_t) [PointDeleteResponse 0]
     = Inr (PointDeleteResponse 0)
   \<and> write_unshard (PointDelete ''a'' :: (nat, nat, nat) write_t) [PointDeleteResponse 0]
     = Inr (PointDeleteResponse 0)
   \<and> write_unshard (PointWrite ''a'' (Some 1) :: (nat, nat, nat) write_t)
        [PointWriteResponse 0, PointWriteResponse 1] = Inl AssertionFailed
   \<and> write_multistore_unshard (PointWrite ''a'' (Some 1) :: (nat, nat, nat) write_t)
        [PointWriteResponse 0, PointWriteResponse 1] = Inl AssertionFailed"
  using write_multistore_unshard_same
     [where w = "PointDelete ''a'' :: (nat, nat, nat) write_t" and responses = "[]"
        and r = "PointDeleteResponse 0"]
    write_multistore_unshard_same
     [where w = "PointWrite ''a'' (Some 1) :: (nat, nat, nat) write_t"
        and responses = "[PointWriteResponse 0, PointWriteResponse 1]"
        and r = "PointWriteResponse 0"]
  by simp

subsection \<open>Runtime errors of a piece\<close>

text \<open>
  Claim C6. In both merges of a range read, when a piece's result is a runtime error and
  no piece before it holds one, the merged response carries that error as its result,
  whatever the terminal and whatever the pieces after it are. The other fields are the
  initial ones: not truncated, the read's key range, the left key of the range.
\<close>

theorem runtime_exc_surfaces:
  assumes "\<forall>p\<in>set pre. get_runtime_exc (result p) = None"
  shows "unshard X (RgetRead rg)
           (map RgetReadResponse pre @ RgetReadResponse (bad\<lparr>result := Runtime_exc e\<rparr>) # post)
         = Inr (RgetReadResponse ((initial_response X rg)\<lparr>result := Runtime_exc e\<rparr>))
       \<and> multistore_unshard X (RgetRead rg)
           (map RgetReadResponse pre @ RgetReadResponse (bad\<lparr>result := Runtime_exc e\<rparr>) # post)
         = Inr (RgetReadResponse ((initial_response X rg)\<lparr>result := Runtime_exc e\<rparr>))"
  by (simp add: unshard_rget_def multistore_unshard_rget_def check_thrown_first [OF assms] Let_def)

theorem runtime_exc_surfaces_witness:
  "unshard toy_externals (RgetRead (rget_a_z 10 (Some Length)))
     [RgetReadResponse (piece (Length_t 3) ''c''),
      RgetReadResponse (piece (Runtime_exc \<lparr>message = ''boom'', backtrace = []\<rparr>) ''d''),
      RgetReadResponse (piece (Runtime_exc \<lparr>message = ''later'', backtrace = []\<rparr>) ''e''),
      PointReadResponse None]
   = Inr (RgetReadResponse
       \<lparr>result = Runtime_exc \<lparr>message = ''boom'', backtrace = []\<rparr>, truncated = False,
        response_key_range = range_a_z, last_considered_key = ''a''\<rparr>)
   \<and> multistore_unshard toy_externals (RgetRead (rget_a_z 10 (Some Length)))
     [RgetReadResponse (piece (Length_t 3) ''c''),
      RgetReadResponse (piece (Runtime_exc \<lparr>message = ''boom'', backtrace = []\<rparr>) ''d''),
      RgetReadResponse (piece (Runtime_exc \<lparr>message = ''later'', backtrace = []\<rparr>) ''e''),
      PointReadResponse None]
   = Inr (RgetReadResponse
       \<lparr>result = Runtime_exc \<lparr>message = ''boom'', backtrace = []\<rparr>, truncated = False,
        response_key_range = range_a_z, last_considered_key = ''a''\<rparr>)"
  using runtime_exc_surfaces
     [where pre = "[piece (Length_t 3) ''c'']" and X = toy_externals
        and rg = "rget_a_z 10 (Some Length)" and bad = "piece (Stream []) ''d''"
        and e = "\<lparr>message = ''boom'', backtrace = []\<rparr>"
        and post = "[RgetReadResponse
                       (piece (Runtime_exc \<lparr>message = ''later'', backtrace = []\<rparr>) ''e''),
                     PointReadResponse None]"]
  by (simp add: piece_def initial_response_def region_of_range_def rget_a_z_def range_a_z_def)

subsection \<open>The length terminal\<close>

text \<open>
  Claim C3 says that under the length terminal the merged result is the sum of the
  pieces' lengths. Both visitors assign an empty atom to the result before they ask it
  for its length alternative, so the pointer they write 0 through is null: with no
  runtime error among the pieces the merge ends there, for every list of pieces, and no
  sum is returned. The example is the one of the specification, lengths 3 and 4.
\<close>

theorem length_terminal_dereferences_null:
  assumes "terminal rg = Some Length"
    and "\<forall>p\<in>set rrs. get_runtime_exc (result p) = None"
  shows "unshard X (RgetRead rg) (map RgetReadResponse rrs) = Inl InvalidDereference
       \<and> multistore_unshard X (RgetRead rg) (map RgetReadResponse rrs) = Inl InvalidDereference"
  using assms(1) check_thrown_none [OF assms(2)]
  by (simp add: unshard_rget_def multistore_unshard_rget_def Let_def)

theorem length_terminal_dereferences_null_witness:
  "unshard toy_externals (RgetRead (rget_a_z 10 (Some Length)))
     [RgetReadResponse (piece (Length_t 3) ''c''), RgetReadResponse (piece (Length_t 4) ''d'')]
   = Inl InvalidDereference
   \<and> multistore_unshard toy_externals (RgetRead (rget_a_z 10 (Some Length)))
     [RgetReadResponse (piece (Length_t 3) ''c''), RgetReadResponse (piece (Length_t 4) ''d'')]
   = Inl InvalidDereference"
  using length_terminal_dereferences_null
     [where rg = "rget_a_z 10 (Some Length)" and X = toy_externals
        and rrs = "[piece (Length_t 3) ''c'', piece (Length_t 4) ''d'']"]
  by (simp add: piece_def rget_a_z_def)

subsection \<open>The last considered key of the multistore merge\<close>

text \<open>
  Claim C1. In the multistore merge of a range read with no terminal, over stream pieces,
  the merged last considered key is the minimum of \<^verbatim>\<open>last_key_in_range()\<close> of the
  read's range and the last considered keys of exactly the pieces whose stream has
  \<open>maximum\<close> elements. Pieces with fewer elements never lower it: merging without
  them gives the same key.
\<close>

theorem multistore_last_considered_key_min:
  assumes "terminal rg = None" and "\<forall>p\<in>set rrs. is_stream p"
  shows "\<exists>res res'.
           multistore_unshard X (RgetRead rg) (map RgetReadResponse rrs)
             = Inr (RgetReadResponse res)
         \<and> last_considered_key res
             = Min (insert (last_key_in_range X (key_range rg))
                      (last_considered_key ` {p \<in> set rrs. length (stream_of p) = maximum rg}))
         \<and> multistore_unshard X (RgetRead rg)
               (map RgetReadResponse (filter (\<lambda>p. \<not> length (stream_of p) < maximum rg) rrs))
             = Inr (RgetReadResponse res')
         \<and> last_considered_key res' = last_considered_key res"
proof -
  let ?keep = "filter (\<lambda>p. \<not> length (stream_of p) < maximum rg) rrs"
  have keep: "\<forall>p\<in>set ?keep. is_stream p"
    using assms(2) by simp
  have same: "{p \<in> set ?keep. full_page (maximum rg) p} = {p \<in> set rrs. full_page (maximum rg) p}"
    by (auto simp: full_page_def)
  show ?thesis
    unfolding multistore_unshard_streams [OF assms] multistore_unshard_streams [OF assms(1) keep]
      same
    by (simp add: full_page_def)
qed

theorem multistore_last_considered_key_min_witness:
  "multistore_unshard toy_externals (RgetRead (rget_a_z 2 None))
     (map RgetReadResponse
        [piece (Stream [(''a'', Some 1), (''c'', Some 3)]) ''c'',
         piece (Stream [(''b'', Some 2)]) ''b'',
         piece (Stream [(''d'', Some 4), (''e'', Some 5)]) ''e''])
     = Inr (RgetReadResponse
         (piece (Stream [(''a'', Some 1), (''c'', Some 3), (''b'', Some 2)]) ''c''))
   \<and> Min (insert (last_key_in_range toy_externals (key_range (rget_a_z 2 None)))
            (last_considered_key `
               {p \<in> set [piece (Stream [(''a'', Some 1), (''c'', Some 3)]) ''c'',
                          piece (Stream [(''b'', Some 2)]) ''b'',
                          piece (Stream [(''d'', Some 4), (''e'', Some 5)]) ''e''].
                length (stream_of p) = maximum (rget_a_z 2 None)}))
     = ''c''"
proof -
  let ?rrs = "[piece (Stream [(''a'', Some 1), (''c'', Some 3)]) ''c'',
               piece (Stream [(''b'', Some 2)]) ''b'',
               piece (Stream [(''d'', Some 4), (''e'', Some 5)]) ''e'']"
  let ?out = "piece (Stream [(''a'', Some 1), (''c'', Some 3), (''b'', Some 2)]) ''c''"
  have trm: "terminal (rget_a_z 2 None) = None"
    by (simp add: rget_a_z_def)
  have streams: "\<forall>p\<in>set ?rrs. is_stream p"
    by (simp add: piece_def is_stream_def)
  have run: "multistore_unshard toy_externals (RgetRead (rget_a_z 2 None))
               (map RgetReadResponse ?rrs) = Inr (RgetReadResponse ?out)"
    by (simp add: multistore_unshard_rget_def initial_response_def piece_def rget_a_z_def
        range_a_z_def toy_externals_def region_of_range_def)
  from multistore_last_considered_key_min [OF trm streams, of toy_externals]
  obtain res where res: "multistore_unshard toy_externals (RgetRead (rget_a_z 2 None))
                           (map RgetReadResponse ?rrs) = Inr (RgetReadResponse res)"
    and key: "last_considered_key res
              = Min (insert (last_key_in_range toy_externals (key_range (rget_a_z 2 None)))
                       (last_considered_key `
                          {p \<in> set ?rrs. length (stream_of p) = maximum (rget_a_z 2 None)}))"
    by blast
  from res run have "res = ?out" by simp
  with key have "Min (insert (last_key_in_range toy_externals (key_range (rget_a_z 2 None)))
                       (last_considered_key `
                          {p \<in> set ?rrs. length (stream_of p) = maximum (rget_a_z 2 None)}))
                 = ''c''"
    by (simp add: piece_def)
  with run show ?thesis by blast
qed

text \<open>
  Claim C4. In the multistore merge of a range read with no terminal, the merged stream
  is the pieces' streams in order, each without the pairs whose key is greater than the
  merged last considered key; so every pair of the merged stream has a key at most that
  key.
\<close>

theorem multistore_stream_below_last_considered_key:
  assumes "terminal rg = None" and "\<forall>p\<in>set rrs. is_stream p"
  shows "\<exists>res.
           multistore_unshard X (RgetRead rg) (map RgetReadResponse rrs)
             = Inr (RgetReadResponse res)
         \<and> result res
             = Stream (concat (map (\<lambda>p. filter (\<lambda>jt. fst jt \<le> last_considered_key res)
                                          (stream_of p)) rrs))
         \<and> (\<forall>jt\<in>set (stream_of res). fst jt \<le> last_considered_key res)"
  unfolding multistore_unshard_streams [OF assms]
  by (auto simp: stream_of_def)

theorem multistore_stream_below_last_considered_key_witness:
  "multistore_unshard toy_externals (RgetRead (rget_a_z 2 None))
     (map RgetReadResponse
        [piece (Stream [(''a'', Some 1), (''c'', Some 3)]) ''c'',
         piece (Stream [(''b'', Some 2)]) ''b'',
         piece (Stream [(''d'', Some 4), (''e'', Some 5)]) ''e''])
     = Inr (RgetReadResponse
         (piece (Stream [(''a'', Some 1), (''c'', Some 3), (''b'', Some 2)]) ''c''))
   \<and> fst (''a'', Some (1::nat)) \<le> ''c'' \<and> fst (''c'', Some (3::nat)) \<le> ''c''
   \<and> fst (''b'', Some (2::nat)) \<le> ''c''"
proof -
  let ?rrs = "[piece (Stream [(''a'', Some 1), (''c'', Some 3)]) ''c'',
               piece (Stream [(''b'', Some 2)]) ''b'',
               piece (Stream [(''d'', Some 4), (''e'', Some 5)]) ''e'']"
  let ?out = "piece (Stream [(''a'', Some 1), (''c'', Some 3), (''b'', Some 2)]) ''c''"
  have trm: "terminal (rget_a_z 2 None) = None"
    by (simp add: rget_a_z_def)
  have streams: "\<forall>p\<in>set ?rrs. is_stream p"
    by (simp add: piece_def is_stream_def)
  have run: "multistore_unshard toy_externals (RgetRead (rget_a_z 2 None))
               (map RgetReadResponse ?rrs) = Inr (RgetReadResponse ?out)"
    by (simp add: multistore_unshard_rget_def initial_response_def piece_def rget_a_z_def
        range_a_z_def toy_externals_def region_of_range_def)
  from multistore_stream_below_last_considered_key [OF trm streams, of toy_externals]
  obtain res where res: "multistore_unshard toy_externals (RgetRead (rget_a_z 2 None))
                           (map RgetReadResponse ?rrs) = Inr (RgetReadResponse res)"
    and below: "\<forall>jt\<in>set (stream_of res). fst jt \<le> last_considered_key res"
    by blast
  from res run have "res = ?out" by simp
  with below have "\<forall>jt\<in>set (stream_of ?out). fst jt \<le> last_considered_key ?out"
    by simp
  then have "fst (''a'', Some (1::nat)) \<le> ''c'' \<and> fst (''c'', Some (3::nat)) \<le> ''c''
             \<and> fst (''b'', Some (2::nat)) \<le> ''c''"
    by (simp add: stream_of_def piece_def)
  with run show ?thesis by blast
qed

text \<open>
  Claim C8 says that with \<open>maximum = 0\<close> the merged last considered key stays at the
  upper bound of the range. The test of the loop is that the stream's size equals the
  maximum, so with maximum 0 every piece with an empty stream is a full page and its
  key can lower the bound: one empty piece whose last considered key is \<open>a\<close>, merged
  for the range from \<open>a\<close> to \<open>z\<close>, gives \<open>a\<close>. That piece is the response which
  the single-store merge returns for the same read over no pieces at all.
\<close>

theorem maximum_zero_lowers_last_considered_key:
  "multistore_unshard toy_externals (RgetRead (rget_a_z 0 None))
     [RgetReadResponse (piece (Stream []) ''a'')]
   = Inr (RgetReadResponse (piece (Stream []) ''a''))
   \<and> last_key_in_range toy_externals (key_range (rget_a_z 0 None)) = ''z''
   \<and> maximum (rget_a_z 0 None) = 0
   \<and> terminal (rget_a_z 0 None) = None
   \<and> last_considered_key (piece (Stream []) ''a'') \<noteq> ''z''
   \<and> unshard toy_externals (RgetRead (rget_a_z 0 None)) []
     = Inr (RgetReadResponse (piece (Stream []) ''a''))"
  by (simp add: multistore_unshard_rget_def unshard_rget_def initial_response_def piece_def
      rget_a_z_def range_a_z_def toy_externals_def region_of_range_def)

text \<open>
  Claim C8 as amended. With \<open>maximum = 0\<close> the merged last considered key is the
  minimum of the upper bound of the range and the last considered keys of the pieces
  whose stream is empty; it is the upper bound when none of those keys is below it.
\<close>

theorem maximum_zero_last_considered_key:
  assumes "terminal rg = None" and "maximum rg = 0" and "\<forall>p\<in>set rrs. is_stream p"
  shows "\<exists>res.
           multistore_unshard X (RgetRead rg) (map RgetReadResponse rrs)
             = Inr (RgetReadResponse res)
         \<and> last_considered_key res
             = Min (insert (last_key_in_range X (key_range rg))
                      (last_considered_key ` {p \<in> set rrs. stream_of p = []}))
         \<and> ((\<forall>p\<in>set rrs. stream_of p = [] \<longrightarrow>
                 last_key_in_range X (key_range rg) \<le> last_considered_key p)
              \<longrightarrow> last_considered_key res = last_key_in_range X (key_range rg))"
proof -
  let ?ub = "last_key_in_range X (key_range rg)"
  let ?S = "last_considered_key ` {p \<in> set rrs. stream_of p = []}"
  have "(\<forall>p\<in>set rrs. stream_of p = [] \<longrightarrow> ?ub \<le> last_considered_key p)
        \<Longrightarrow> Min (insert ?ub ?S) = ?ub"
    by (intro Min_eqI) auto
  then show ?thesis
    unfolding multistore_unshard_streams [OF assms(1,3)]
    by (simp add: full_page_def assms(2))
qed

theorem maximum_zero_last_considered_key_witness:
  "multistore_unshard toy_externals (RgetRead (rget_a_z 0 None))
     (map RgetReadResponse
        [piece (Stream [(''b'', Some 2)]) ''b'', piece (Stream []) ''z'', piece (Stream []) ''zz''])
     = Inr (RgetReadResponse (piece (Stream [(''b'', Some 2)]) ''z''))
   \<and> last_key_in_range toy_externals (key_range (rget_a_z 0 None)) = ''z''"
proof -
  let ?rrs = "[piece (Stream [(''b'', Some 2)]) ''b'', piece (Stream []) ''z'',
               piece (Stream []) ''zz'']"
  let ?out = "piece (Stream [(''b'', Some 2)]) ''z''"
  have trm: "terminal (rget_a_z 0 None) = None" and mx: "maximum (rget_a_z 0 None) = 0"
    by (simp_all add: rget_a_z_def)
  have streams: "\<forall>p\<in>set ?rrs. is_stream p"
    by (simp add: piece_def is_stream_def)
  have ub: "last_key_in_range toy_externals (key_range (rget_a_z 0 None)) = ''z''"
    by (simp add: toy_externals_def rget_a_z_def range_a_z_def)
  have above: "\<forall>p\<in>set ?rrs. stream_of p = [] \<longrightarrow>
                 last_key_in_range toy_externals (key_range (rget_a_z 0 None))
                   \<le> last_considered_key p"
    by (simp add: ub piece_def stream_of_def)
  from maximum_zero_last_considered_key [OF trm mx streams, of toy_externals] above
  obtain res where res: "multistore_unshard toy_externals (RgetRead (rget_a_z 0 None))
                           (map RgetReadResponse ?rrs) = Inr (RgetReadResponse res)"
    and key: "last_considered_key res
              = last_key_in_range toy_externals (key_range (rget_a_z 0 None))"
    by blast
  have "result res = Stream [(''b'', Some 2)] \<and> truncated res = False
        \<and> response_key_range res = range_a_z"
    using res
    by (simp add: multistore_unshard_rget_def initial_response_def piece_def rget_a_z_def
        range_a_z_def toy_externals_def region_of_range_def split: sum.splits)
       (auto simp: range_a_z_def)
  with key ub have "res = ?out"
    by (simp add: piece_def)
  with res ub show ?thesis by simp
qed

subsection \<open>CPU sharding subspaces\<close>

text \<open>The conversions of the 32-bit arguments, read as numbers.\<close>

lemma unat_scast_nonneg:
  fixes x :: "32 word"
  assumes "0 \<le> sint x"
  shows "unat (scast x :: 64 word) = nat (sint x)"
proof -
  have lt: "sint x < 2 ^ 31"
    using sint_lt [of x] by simp
  have "(scast x :: 64 word) = word_of_int (sint x)"
    by (rule scast_eq)
  also have "\<dots> = of_nat (nat (sint x))"
    using assms by simp
  finally have "unat (scast x :: 64 word) = nat (sint x) mod 2 ^ 64"
    by (simp only: unat_of_nat) simp
  moreover have "nat (sint x) < 2 ^ 64"
    using lt assms by (simp add: nat_less_iff)
  ultimately show ?thesis by simp
qed

lemma sint_of_nat_small:
  assumes "k < 2 ^ 31"
  shows "sint (of_nat k :: 32 word) = int k"
proof -
  have "sint (word_of_int (int k) :: 32 word) = signed_take_bit (LENGTH(32) - 1) (int k)"
    by (rule sint_sbintrunc')
  moreover have "signed_take_bit 31 (int k) = int k"
    using assms by (intro signed_take_bit_int_eq_self) auto
  ultimately show ?thesis by simp
qed

lemma succ_eq_iff:
  fixes i n :: "32 word"
  assumes "sint i < sint n"
  shows "(i + 1 = n) = (sint i + 1 = sint n)"
proof -
  have "sint n < 2 ^ 31" using sint_lt [of n] by simp
  moreover have "- (2 ^ 31) \<le> sint i" using sint_ge [of i] by simp
  ultimately have "signed_take_bit 31 (sint i + 1) = sint i + 1"
    using assms by (intro signed_take_bit_int_eq_self) auto
  then have s: "sint (i + 1) = sint i + 1"
    by (simp add: sint_word_add)
  show ?thesis
  proof
    assume "i + 1 = n"
    with s show "sint i + 1 = sint n" by simp
  next
    assume "sint i + 1 = sint n"
    with s have "sint (i + 1) = sint n" by simp
    then show "i + 1 = n" by (simp add: signed_word_eqI)
  qed
qed

lemma cpu_sharding_subspace_shape:
  fixes i n :: "32 word"
  assumes i0: "0 \<le>s i" and lt: "i <s n"
  shows "\<exists>r. cpu_sharding_subspace H i n = Inr r
           \<and> inner r = key_range_universe
           \<and> beg r = (H div scast n) * scast i
           \<and> end_hash r = (if i + 1 = n then H else beg r + H div scast n)
           \<and> unat (beg r) = (unat H div nat (sint n)) * nat (sint i)
           \<and> unat (end_hash r)
               = (if i + 1 = n then unat H else (unat H div nat (sint n)) * (nat (sint i) + 1))"
proof -
  define N I W where "N = nat (sint n)" and "I = nat (sint i)" and "W = unat H div N"
  have i_nonneg: "0 \<le> sint i" and i_lt: "sint i < sint n"
    using i0 lt by (simp_all add: word_sle_eq word_sless_alt)
  then have n_nonneg: "0 \<le> sint n" by simp
  have IN: "I < N"
    unfolding I_def N_def using i_nonneg i_lt by simp
  have un: "unat (scast n :: 64 word) = N" and ui: "unat (scast i :: 64 word) = I"
    unfolding I_def N_def using unat_scast_nonneg n_nonneg i_nonneg by simp_all
  have uw: "unat (H div scast n) = W"
    unfolding W_def by (simp add: unat_div un)
  have WH: "W * N \<le> unat H"
    unfolding W_def by (rule div_times_less_eq_dividend)
  have H64: "unat H < 2 ^ LENGTH(64)"
    by (rule unsigned_less)
  have WN: "W * N < 2 ^ LENGTH(64)"
    by (rule le_less_trans [OF WH H64])
  have "W * I \<le> W * N"
    using IN by (intro mult_le_mono2) simp
  then have "unat (H div scast n) * unat (scast i :: 64 word) < 2 ^ LENGTH(64)"
    unfolding uw ui using WN by (rule le_less_trans)
  then have "unat ((H div scast n) * scast i)
             = unat (H div scast n) * unat (scast i :: 64 word)"
    by (rule unat_mult_lem [THEN iffD1])
  then have ub: "unat ((H div scast n) * scast i) = W * I"
    by (simp only: uw ui)
  have ue: "unat ((H div scast n) * scast i + H div scast n) = W * (I + 1)"
  proof -
    have "W * (I + 1) \<le> W * N"
      using IN by (intro mult_le_mono2) simp
    then have "W * I + W < 2 ^ LENGTH(64)"
      using WN by simp
    then have "unat ((H div scast n) * scast i) + unat (H div scast n) < 2 ^ LENGTH(64)"
      by (simp only: ub uw)
    then have "unat ((H div scast n) * scast i + H div scast n)
               = unat ((H div scast n) * scast i) + unat (H div scast n)"
      by (rule unat_add_lem [THEN iffD1])
    then have "unat ((H div scast n) * scast i + H div scast n) = W * I + W"
      by (simp only: ub uw)
    then show ?thesis by simp
  qed
  have "cpu_sharding_subspace H i n
        = Inr \<lparr>beg = (H div scast n) * scast i,
               end_hash = (if i + 1 = n then H else (H div scast n) * scast i + H div scast n),
               inner = key_range_universe\<rparr>"
    using i0 lt by (simp add: cpu_sharding_subspace_def Let_def)
  then show ?thesis
    using ub ue unfolding W_def I_def N_def by simp
qed


lemma subspace_hashes_valid:
  fixes i n :: "32 word"
  assumes "0 \<le>s i" and "i <s n"
  shows "subspace_hashes H n i
         = {h. (unat H div nat (sint n)) * nat (sint i) \<le> unat h
               \<and> unat h < (if sint i + 1 = sint n then unat H
                            else (unat H div nat (sint n)) * (nat (sint i) + 1))}"
proof -
  from cpu_sharding_subspace_shape [OF assms, of H]
  obtain r where r: "cpu_sharding_subspace H i n = Inr r"
    and b: "unat (beg r) = (unat H div nat (sint n)) * nat (sint i)"
    and e: "unat (end_hash r)
            = (if i + 1 = n then unat H else (unat H div nat (sint n)) * (nat (sint i) + 1))"
    by blast
  have "sint i < sint n"
    using assms(2) by (simp add: word_sless_alt)
  then have "(i + 1 = n) = (sint i + 1 = sint n)"
    by (rule succ_eq_iff)
  with e have e': "unat (end_hash r)
            = (if sint i + 1 = sint n then unat H
               else (unat H div nat (sint n)) * (nat (sint i) + 1))"
    by simp
  show ?thesis
    unfolding subspace_hashes_def r hash_interval_def sum.case
      word_le_nat_alt word_less_nat_alt b e' ..
qed

lemma subspace_hashes_invalid:
  assumes "\<not> (0 \<le>s i \<and> i <s n)"
  shows "subspace_hashes H n i = {}"
  using assms by (auto simp: subspace_hashes_def cpu_sharding_subspace_def)

lemma subspace_hashes_disjoint_less:
  fixes i j n :: "32 word"
  assumes i: "0 \<le>s i" "i <s n" and j: "0 \<le>s j" "j <s n" and ij: "sint i < sint j"
  shows "subspace_hashes H n i \<inter> subspace_hashes H n j = {}"
proof -
  define W where "W = unat H div nat (sint n)"
  have i0: "0 \<le> sint i" and jn: "sint j < sint n"
    using i j by (simp_all add: word_sle_eq word_sless_alt)
  have not_last: "sint i + 1 \<noteq> sint n"
    using ij jn by simp
  have "nat (sint i) + 1 \<le> nat (sint j)"
    using i0 ij by simp
  then have le: "W * (nat (sint i) + 1) \<le> W * nat (sint j)"
    by (rule mult_le_mono2)
  show ?thesis
    unfolding subspace_hashes_valid [OF i] subspace_hashes_valid [OF j] W_def [symmetric]
    using not_last le by auto
qed

lemma subspace_hashes_disjoint:
  fixes i j n :: "32 word"
  assumes "i \<noteq> j"
  shows "subspace_hashes H n i \<inter> subspace_hashes H n j = {}"
proof (cases "(0 \<le>s i \<and> i <s n) \<and> (0 \<le>s j \<and> j <s n)")
  case False
  then show ?thesis
    using subspace_hashes_invalid [of i n H] subspace_hashes_invalid [of j n H] by auto
next
  case True
  have "sint i \<noteq> sint j"
    using assms by (auto dest: signed_word_eqI)
  then consider "sint i < sint j" | "sint j < sint i"
    by linarith
  then show ?thesis
  proof cases
    case 1
    then show ?thesis
      using True by (intro subspace_hashes_disjoint_less) simp_all
  next
    case 2
    then have "subspace_hashes H n j \<inter> subspace_hashes H n i = {}"
      using True by (intro subspace_hashes_disjoint_less) simp_all
    then show ?thesis by blast
  qed
qed

lemma subspace_hashes_below:
  fixes i n :: "32 word"
  shows "subspace_hashes H n i \<subseteq> {h. h < H}"
proof (cases "0 \<le>s i \<and> i <s n")
  case False
  then show ?thesis by (simp add: subspace_hashes_invalid)
next
  case True
  define W where "W = unat H div nat (sint n)"
  have i0: "0 \<le> sint i" and lt: "sint i < sint n"
    using True by (simp_all add: word_sle_eq word_sless_alt)
  then have "nat (sint i) + 1 \<le> nat (sint n)"
    by simp
  then have "W * (nat (sint i) + 1) \<le> W * nat (sint n)"
    by (rule mult_le_mono2)
  also have "\<dots> \<le> unat H"
    unfolding W_def by (rule div_times_less_eq_dividend)
  finally have "W * (nat (sint i) + 1) \<le> unat H" .
  then show ?thesis
    using True
    unfolding subspace_hashes_valid [OF conjunct1 [OF True] conjunct2 [OF True]]
      W_def [symmetric] word_less_nat_alt
    by auto
qed

lemma subspace_hashes_cover:
  fixes n :: "32 word"
  assumes n: "0 <s n" and h: "h < H"
  shows "\<exists>i. 0 \<le>s i \<and> i <s n \<and> h \<in> subspace_hashes H n i"
proof -
  define N W where "N = nat (sint n)" and "W = unat H div N"
  have npos: "0 < sint n"
    using n by (simp add: word_sless_alt)
  have N31: "N < 2 ^ 31"
    unfolding N_def using sint_lt [of n] npos by (simp add: nat_less_iff)
  have Npos: "0 < N"
    unfolding N_def using npos by simp
  have hH: "unat h < unat H"
    using h by (simp add: word_less_nat_alt)
  define I where "I = (if W = 0 \<or> N - 1 \<le> unat h div W then N - 1 else unat h div W)"
  have IN: "I < N"
    unfolding I_def using Npos by auto
  then have I31: "I < 2 ^ 31"
    using N31 by simp
  define i :: "32 word" where "i = of_nat I"
  have si: "sint i = int I"
    unfolding i_def using I31 by (rule sint_of_nat_small)
  have sn: "sint n = int N"
    unfolding N_def using npos by simp
  have valid: "0 \<le>s i" "i <s n"
    using si sn IN by (simp_all add: word_sle_eq word_sless_alt)
  have nat_i: "nat (sint i) = I" and nat_n: "nat (sint n) = N"
    using si sn by simp_all
  have last_iff: "(sint i + 1 = sint n) = (I = N - 1)"
    using si sn Npos by auto
  have lower: "W * I \<le> unat h"
  proof (cases "W = 0")
    case True
    then show ?thesis by simp
  next
    case False
    have "I \<le> unat h div W"
      unfolding I_def using False by auto
    then have "W * I \<le> W * (unat h div W)"
      by (rule mult_le_mono2)
    also have "\<dots> \<le> unat h"
      by simp
    finally show ?thesis .
  qed
  have upper: "unat h < W * (I + 1)" if "I \<noteq> N - 1"
  proof -
    from that have W0: "W \<noteq> 0" and I: "I = unat h div W"
      unfolding I_def by (auto split: if_splits)
    have "unat h < W * (unat h div W) + W"
      using W0 by (metis add.commute div_mult_mod_eq mod_less_divisor mult.commute
          nat_add_left_cancel_less neq0_conv)
    then show ?thesis
      using I by simp
  qed
  have "h \<in> subspace_hashes H n i"
    unfolding subspace_hashes_valid [OF valid] nat_i nat_n last_iff W_def [symmetric]
    using lower upper hH by auto
  with valid show ?thesis by blast
qed

text \<open>
  Claim C9. For every \<open>n \<ge> 1\<close>, each index from 0 to \<open>n - 1\<close> gets a region with
  the universal key range that begins at the index times the width \<open>hash_size / n\<close>;
  every region but the last has that width and the last ends at the hash size. The hash
  intervals of two different indices are disjoint, and together the intervals are
  exactly the hash values below the hash size.
\<close>

theorem cpu_sharding_subspace_partition:
  fixes n :: "32 word"
  assumes "0 <s n"
  shows "(\<forall>i. 0 \<le>s i \<and> i <s n \<longrightarrow>
            (\<exists>r. cpu_sharding_subspace H i n = Inr r
                 \<and> inner r = key_range_universe
                 \<and> beg r = (H div scast n) * scast i
                 \<and> beg r \<le> end_hash r
                 \<and> (if i + 1 = n then end_hash r = H
                     else end_hash r - beg r = H div scast n)))
       \<and> (\<forall>i j. i \<noteq> j \<longrightarrow> subspace_hashes H n i \<inter> subspace_hashes H n j = {})
       \<and> (\<Union>i\<in>{i. 0 \<le>s i \<and> i <s n}. subspace_hashes H n i) = {h. h < H}"
proof (intro conjI allI impI)
  fix i :: "32 word"
  assume valid: "0 \<le>s i \<and> i <s n"
  then have i: "0 \<le>s i" "i <s n" by simp_all
  define W where "W = unat H div nat (sint n)"
  from cpu_sharding_subspace_shape [OF i, of H]
  obtain r where r: "cpu_sharding_subspace H i n = Inr r"
    and u: "inner r = key_range_universe"
    and b: "beg r = (H div scast n) * scast i"
    and e: "end_hash r = (if i + 1 = n then H else beg r + H div scast n)"
    and ub: "unat (beg r) = W * nat (sint i)"
    and ue: "unat (end_hash r) = (if i + 1 = n then unat H else W * (nat (sint i) + 1))"
    unfolding W_def by blast
  have i0: "0 \<le> sint i" and lt: "sint i < sint n"
    using i by (simp_all add: word_sle_eq word_sless_alt)
  then have "nat (sint i) \<le> nat (sint n)"
    by simp
  then have "W * nat (sint i) \<le> W * nat (sint n)"
    by (rule mult_le_mono2)
  also have "\<dots> \<le> unat H"
    unfolding W_def by (rule div_times_less_eq_dividend)
  finally have "W * nat (sint i) \<le> unat H" .
  then have "unat (beg r) \<le> unat (end_hash r)"
    unfolding ub ue by simp
  then have "beg r \<le> end_hash r"
    by (simp add: word_le_nat_alt)
  moreover have "(if i + 1 = n then end_hash r = H else end_hash r - beg r = H div scast n)"
    using e by simp
  ultimately show "\<exists>r. cpu_sharding_subspace H i n = Inr r
                 \<and> inner r = key_range_universe
                 \<and> beg r = (H div scast n) * scast i
                 \<and> beg r \<le> end_hash r
                 \<and> (if i + 1 = n then end_hash r = H
                     else end_hash r - beg r = H div scast n)"
    using r u b by blast
next
  fix i j :: "32 word"
  assume "i \<noteq> j"
  then show "subspace_hashes H n i \<inter> subspace_hashes H n j = {}"
    by (rule subspace_hashes_disjoint)
next
  show "(\<Union>i\<in>{i. 0 \<le>s i \<and> i <s n}. subspace_hashes H n i) = {h. h < H}"
  proof (intro equalityI subsetI)
    fix h
    assume "h \<in> (\<Union>i\<in>{i. 0 \<le>s i \<and> i <s n}. subspace_hashes H n i)"
    then show "h \<in> {h. h < H}"
      using subspace_hashes_below [of H n] by blast
  next
    fix h
    assume "h \<in> {h. h < H}"
    then have "h < H" by simp
    from subspace_hashes_cover [OF assms this]
    show "h \<in> (\<Union>i\<in>{i. 0 \<le>s i \<and> i <s n}. subspace_hashes H n i)"
      by blast
  qed
qed


theorem cpu_sharding_subspace_partition_witness:
  "cpu_sharding_subspace 16 0 3 = Inr \<lparr>beg = 0, end_hash = 5, inner = key_range_universe\<rparr>
   \<and> cpu_sharding_subspace 16 1 3 = Inr \<lparr>beg = 5, end_hash = 10, inner = key_range_universe\<rparr>
   \<and> cpu_sharding_subspace 16 2 3 = Inr \<lparr>beg = 10, end_hash = 16, inner = key_range_universe\<rparr>
   \<and> subspace_hashes 16 3 0 \<inter> subspace_hashes 16 3 1 = {}
   \<and> subspace_hashes 16 3 1 \<inter> subspace_hashes 16 3 2 = {}
   \<and> subspace_hashes 16 3 0 \<inter> subspace_hashes 16 3 2 = {}
   \<and> (\<Union>i\<in>{i. 0 \<le>s i \<and> i <s 3}. subspace_hashes 16 3 i) = {h. h < 16}"
proof -
  have n: "0 <s (3 :: 32 word)"
    by (simp add: word_sless_alt)
  have run: "cpu_sharding_subspace 16 0 3 = Inr \<lparr>beg = 0, end_hash = 5, inner = key_range_universe\<rparr>"
    "cpu_sharding_subspace 16 1 3 = Inr \<lparr>beg = 5, end_hash = 10, inner = key_range_universe\<rparr>"
    "cpu_sharding_subspace 16 2 3 = Inr \<lparr>beg = 10, end_hash = 16, inner = key_range_universe\<rparr>"
    by (simp_all add: cpu_sharding_subspace_def word_sless_alt word_sle_eq)
  have neq: "(0 :: 32 word) \<noteq> 1" "(1 :: 32 word) \<noteq> 2" "(0 :: 32 word) \<noteq> 2"
    by simp_all
  from cpu_sharding_subspace_partition [OF n, of 16] neq run show ?thesis
    by blast
qed

subsection \<open>Rounding to double precision\<close>

























subsection \<open>The distribution merge across hash shards\<close>















end
